theory Spec2Isabelle
  imports Main "HOL-Library.Word"
begin

unbundle bit_operations_syntax

section \<open>Byte streams\<close>

text \<open>
  The embedding follows \<^verbatim>\<open>src/main.cpp\<close>. A byte is a \<^verbatim>\<open>uint8_t\<close>. Quantities of type
  \<^verbatim>\<open>size_t\<close> (amounts, offsets into a buffer, loop counters) are natural numbers: the
  program only subtracts a smaller \<^verbatim>\<open>size_t\<close> from a larger one, and no sum of them
  reaches \<open>2 ^ 64\<close> for a file that exists.
\<close>

type_synonym byte = "8 word"

text \<open>
  What the program throws. \<open>end_of_stream\<close> is the struct of that name;
  \<open>runtime_error\<close> carries the message that \<^verbatim>\<open>error(format, ...)\<close> formats;
  \<open>system_error\<close> is the \<^verbatim>\<open>std::system_error\<close> of a failed \<^verbatim>\<open>::open\<close>;
  \<open>length_error\<close> is the \<^verbatim>\<open>std::length_error\<close> of a \<^verbatim>\<open>std::string\<close> built with a
  length beyond its maximum.
  Two values are not exceptions of the program but mark behaviour that C++ leaves
  undefined, where the model stops: \<open>out_of_bounds\<close> is a read of
  \<^verbatim>\<open>m_window[index]\<close> with \<open>index\<close> past the 4096 cells of the array, and
  \<open>int_overflow\<close> is an \<^verbatim>\<open>int\<close> addition past \<^verbatim>\<open>INT_MAX\<close>.
  Of the failures of the operating system the model has the one the program brings
  about by itself: creating an output file with the empty name. The others (a
  directory that cannot be written, a full disk, a failing read or seek) depend on the
  machine and are outside the model: the input file is open and readable, and a sink
  with a name accepts what is written to it.
\<close>

datatype error =
    end_of_stream
  | runtime_error string
  | system_error
  | length_error
  | out_of_bounds nat
  | int_overflow

text \<open>
  Everything that outlives a call: the opened input file (its contents and the file
  offset that \<^verbatim>\<open>read\<close> and \<^verbatim>\<open>lseek\<close> move), the output files created so far, each
  with its name and the bytes written to it, and the lines printed by \<^verbatim>\<open>puts\<close>.
\<close>

record world =
  file_data :: "byte list"
  file_pos :: nat
  sinks :: "(string \<times> byte list) list"
  console :: "string list"

text \<open>
  A call either throws (\<open>Inl\<close>: the error and the world as the throw leaves it;
  locals are gone) or returns (\<open>Inr\<close>: the value and the world).
\<close>

type_synonym 'a result = "(error \<times> world) + ('a \<times> world)"

text \<open>\<open>store buffer dst bs\<close>: the buffer after \<open>bs\<close> was copied to \<open>buffer + dst\<close>.\<close>

definition store :: "byte list \<Rightarrow> nat \<Rightarrow> byte list \<Rightarrow> byte list" where
  "store buffer dst bs = take dst buffer @ bs @ drop (dst + length bs) buffer"

text \<open>
  \<^verbatim>\<open>ifstream_impl::try_read\<close> (lines 102-113). \<^verbatim>\<open>::read\<close> on a regular file hands
  out the bytes between the file offset and the end of the file, at most \<open>amount\<close>
  of them, and moves the offset past them. The object itself holds only the
  descriptor, so its state is \<open>unit\<close>.
\<close>

definition ifstream_try_read ::
  "unit \<Rightarrow> byte list \<Rightarrow> nat \<Rightarrow> nat \<Rightarrow> world \<Rightarrow> (nat \<times> byte list \<times> unit) result" where
  "ifstream_try_read this buffer dst amount w =
     (if amount > 0 then
        (let got = take amount (drop (file_pos w) (file_data w))
         in Inr ((length got, store buffer dst got, this),
                 w\<lparr>file_pos := file_pos w + length got\<rparr>))
      else Inr ((0, buffer, this), w))"

text \<open>\<^verbatim>\<open>ifstream_impl::seek\<close> (lines 115-121).\<close>

definition seek :: "nat \<Rightarrow> world \<Rightarrow> unit result" where
  "seek offset w = Inr ((), w\<lparr>file_pos := offset\<rparr>)"

text \<open>
  \<^verbatim>\<open>istream::read(void *, size_t)\<close> (lines 28-39), for any implementation
  \<open>try_read\<close> of the virtual method, whose object has state \<open>'s\<close>.
\<close>

function istream_read ::
  "('s \<Rightarrow> byte list \<Rightarrow> nat \<Rightarrow> nat \<Rightarrow> world \<Rightarrow> (nat \<times> byte list \<times> 's) result) \<Rightarrow>
   's \<Rightarrow> byte list \<Rightarrow> nat \<Rightarrow> nat \<Rightarrow> world \<Rightarrow> (byte list \<times> 's) result" where
  "istream_read try_read this buffer amount remaining w =
     (if remaining > 0 then
        (case try_read this buffer (amount - remaining) remaining w of
           Inl e \<Rightarrow> Inl e
         | Inr ((res, buffer', this'), w') \<Rightarrow>
             if res > 0 then istream_read try_read this' buffer' amount (remaining - res) w'
             else Inl (end_of_stream, w'))
      else Inr ((buffer, this), w))"
  by pat_completeness auto
termination
  by (relation "measure (\<lambda>(try_read, this, buffer, amount, remaining, w). remaining)") auto

declare istream_read.simps [simp del]

text \<open>
  \<^verbatim>\<open>istream::read<T>()\<close> and \<^verbatim>\<open>istream::read(T &)\<close> (lines 41-51) on the input file, for
  a \<open>T\<close> of \<open>n\<close> bytes. The bytes of \<open>tmp\<close> are indeterminate before the read; every
  one of them is overwritten when the read returns.
\<close>

definition read_bytes :: "nat \<Rightarrow> world \<Rightarrow> byte list result" where
  "read_bytes n w =
     (case istream_read ifstream_try_read () (replicate n 0) n n w of
        Inl e \<Rightarrow> Inl e
      | Inr ((tmp, this), w') \<Rightarrow> Inr (tmp, w'))"

text \<open>The value of an unsigned integer from its bytes in memory (little-endian host).\<close>

fun le_nat :: "byte list \<Rightarrow> nat" where
  "le_nat [] = 0"
| "le_nat (b # bs) = unat b + 256 * le_nat bs"

definition read_word :: "nat \<Rightarrow> world \<Rightarrow> ('a::len word) result" where
  "read_word n w =
     (case read_bytes n w of
        Inl e \<Rightarrow> Inl e
      | Inr (tmp, w') \<Rightarrow> Inr (word_of_nat (le_nat tmp), w'))"

text \<open>
  What \<open>istream::read\<close> does on the input file: \<^verbatim>\<open>::read\<close> delivers all the bytes asked
  for when the file has them; otherwise it delivers the rest of the file, and the
  next call delivers nothing, which throws.
\<close>

lemma istream_read_eof:
  "remaining > 0 \<Longrightarrow> length (file_data w) \<le> file_pos w \<Longrightarrow>
   istream_read ifstream_try_read u buffer amount remaining w = Inl (end_of_stream, w)"
  apply (subst istream_read.simps)
  apply (simp add: ifstream_try_read_def Let_def)
  done

lemma istream_read_file:
  "istream_read ifstream_try_read u buffer amount remaining w =
     (if remaining = 0 then Inr ((buffer, u), w)
      else if file_pos w + remaining \<le> length (file_data w)
      then Inr ((store buffer (amount - remaining)
                   (take remaining (drop (file_pos w) (file_data w))), u),
                w\<lparr>file_pos := file_pos w + remaining\<rparr>)
      else Inl (end_of_stream, w\<lparr>file_pos := max (file_pos w) (length (file_data w))\<rparr>))"
  apply (subst istream_read.simps)
  apply (simp add: ifstream_try_read_def Let_def)
  apply (subst istream_read.simps)
  apply (auto simp add: ifstream_try_read_def Let_def min_def max_def istream_read_eof)
  done

lemma read_bytes_eq:
  "read_bytes n w =
     (if n = 0 then Inr ([], w)
      else if file_pos w + n \<le> length (file_data w)
      then Inr (take n (drop (file_pos w) (file_data w)), w\<lparr>file_pos := file_pos w + n\<rparr>)
      else Inl (end_of_stream, w\<lparr>file_pos := max (file_pos w) (length (file_data w))\<rparr>))"
  by (simp add: read_bytes_def istream_read_file store_def)

lemma read_word_Inr:
  assumes "read_word n w = Inr (v, w')" and "n > 0"
  shows "file_data w' = file_data w \<and> file_pos w' = file_pos w + n
    \<and> file_pos w' \<le> length (file_data w) \<and> sinks w' = sinks w \<and> console w' = console w"
  using assms by (auto simp add: read_word_def read_bytes_eq split: if_splits)

section \<open>The window decoder\<close>

text \<open>\<^verbatim>\<open>struct ilzrwstream_impl\<close> (lines 192-197); \<open>m_stream\<close> is the input file of the world.\<close>

record ilzrwstream_impl =
  m_window :: "byte list"
  m_window_index :: "16 word"
  m_control_bits :: "16 word"
  m_control_remaining :: "8 word"

text \<open>
  The constructor (lines 199-204), called by \<^verbatim>\<open>ilzrwstream::wrap\<close> through \<^verbatim>\<open>new\<close>. Its
  initialiser list names \<open>m_stream\<close>, \<open>m_window_index\<close>, \<open>m_control_bits\<close> and
  \<open>m_control_remaining\<close>; \<open>m_window\<close> is not in it, so the array keeps whatever the
  allocated storage held. That content is the parameter \<open>storage\<close>.
\<close>

definition ilzrwstream_wrap :: "byte list \<Rightarrow> ilzrwstream_impl" where
  "ilzrwstream_wrap storage =
     \<lparr>m_window = storage, m_window_index = 0, m_control_bits = 0, m_control_remaining = 0\<rparr>"

text \<open>Lines 216 and 217: the two fields of a descriptor.\<close>

definition descriptor_ofs :: "16 word \<Rightarrow> nat" where
  "descriptor_ofs tmp = unat (drop_bit 4 (tmp AND 0xf000) OR (tmp AND 0xff))"

definition descriptor_len :: "16 word \<Rightarrow> nat" where
  "descriptor_len tmp = unat (drop_bit 8 (tmp AND 0xf00)) + 1"

text \<open>
  The inner loop (lines 218-221). Every pass stores through the same \<open>dst\<close>; the
  window and \<open>m_window_index\<close> are only read.
\<close>

function backref_loop ::
  "byte list \<Rightarrow> nat \<Rightarrow> nat \<Rightarrow> nat \<Rightarrow> nat \<Rightarrow> byte list \<Rightarrow> nat \<Rightarrow> error + byte list" where
  "backref_loop window window_index ofs len i buffer dst =
     (if i < len then
        (let index = ((window_index + (4096 - ofs)) mod 4096) + i
         in if index < 4096
            then backref_loop window window_index ofs len (i + 1) (buffer[dst := window ! index]) dst
            else Inl (out_of_bounds index))
      else Inr buffer)"
  by pat_completeness auto
termination
  by (relation "measure (\<lambda>(window, window_index, ofs, len, i, buffer, dst). len - i)") auto

declare backref_loop.simps [simp del]

text \<open>
  One pass of the outer loop of \<^verbatim>\<open>ilzrwstream_impl::try_read\<close> (lines 208-227), storing
  through \<open>dst\<close>. Neither \<open>m_control_bits\<close> nor \<open>m_control_remaining\<close> is written
  after the control word was read.
\<close>

definition ilzrw_token ::
  "ilzrwstream_impl \<Rightarrow> byte list \<Rightarrow> nat \<Rightarrow> world \<Rightarrow> (byte list \<times> ilzrwstream_impl) result" where
  "ilzrw_token this buffer dst w =
     (case (if m_control_remaining this = 0 then
              (case read_word 2 w of
                 Inl e \<Rightarrow> Inl e
               | Inr (bits, w') \<Rightarrow>
                   Inr (this\<lparr>m_control_bits := bits, m_control_remaining := 16\<rparr>, w'))
            else Inr (this, w)) of
        Inl e \<Rightarrow> Inl e
      | Inr (this1, w1) \<Rightarrow>
          if m_control_bits this1 AND 1 \<noteq> 0 then
            (case read_word 2 w1 of
               Inl e \<Rightarrow> Inl e
             | Inr (tmp, w2) \<Rightarrow>
                 (case backref_loop (m_window this1) (unat (m_window_index this1))
                         (descriptor_ofs tmp) (descriptor_len tmp) 0 buffer dst of
                    Inl e \<Rightarrow> Inl (e, w2)
                  | Inr buffer' \<Rightarrow> Inr ((buffer', this1), w2)))
          else
            (case read_word 1 w1 of
               Inl e \<Rightarrow> Inl e
             | Inr (v, w2) \<Rightarrow>
                 Inr ((buffer[dst := v],
                       this1\<lparr>m_window := (m_window this1)[unat (m_window_index this1) := v],
                             m_window_index :=
                               word_of_nat ((unat (m_window_index this1) + 1) mod 4096)\<rparr>),
                      w2)))"

text \<open>A pass that returns has taken at least one byte from the input file.\<close>

lemma ilzrw_token_consumes:
  assumes "ilzrw_token this buffer dst w = Inr ((buffer', this'), w')"
  shows "file_data w' = file_data w \<and> file_pos w < file_pos w'
    \<and> file_pos w' \<le> length (file_data w)"
proof (cases "m_control_remaining this = 0")
  case True
  from assms True obtain bits w1 where r1: "read_word 2 w = Inr ((bits :: 16 word), w1)"
    by (auto simp add: ilzrw_token_def split: sum.splits)
  note h1 = read_word_Inr [OF r1]
  show ?thesis
  proof (cases "bits AND 1 \<noteq> 0")
    case True
    with assms r1 \<open>m_control_remaining this = 0\<close>
    obtain tmp where "read_word 2 w1 = Inr ((tmp :: 16 word), w')"
      by (auto simp add: ilzrw_token_def split: sum.splits)
    from read_word_Inr [OF this] h1 show ?thesis by simp
  next
    case False
    with assms r1 \<open>m_control_remaining this = 0\<close>
    obtain v where "read_word 1 w1 = Inr ((v :: 8 word), w')"
      by (auto simp add: ilzrw_token_def split: sum.splits)
    from read_word_Inr [OF this] h1 show ?thesis by simp
  qed
next
  case False
  show ?thesis
  proof (cases "m_control_bits this AND 1 \<noteq> 0")
    case True
    with assms \<open>m_control_remaining this \<noteq> 0\<close>
    obtain tmp where "read_word 2 w = Inr ((tmp :: 16 word), w')"
      by (auto simp add: ilzrw_token_def split: sum.splits)
    from read_word_Inr [OF this] show ?thesis by simp
  next
    case False
    with assms \<open>m_control_remaining this \<noteq> 0\<close>
    obtain v where "read_word 1 w = Inr ((v :: 8 word), w')"
      by (auto simp add: ilzrw_token_def split: sum.splits)
    from read_word_Inr [OF this] show ?thesis by simp
  qed
qed

text \<open>
  The outer loop of \<^verbatim>\<open>ilzrwstream_impl::try_read\<close> (lines 207-229). Its header is
  \<^verbatim>\<open>for (size_t remaining = amount; remaining > 0;)\<close> and its body never assigns
  \<open>remaining\<close>, so the recursive call passes \<open>remaining\<close> on unchanged and \<open>dst\<close> is
  \<open>buffer + 0\<close> in every pass. The loop is still total on a file: every pass that
  returns has moved the file offset forward.
\<close>

function ilzrw_try_read_loop ::
  "ilzrwstream_impl \<Rightarrow> byte list \<Rightarrow> nat \<Rightarrow> nat \<Rightarrow> nat \<Rightarrow> world \<Rightarrow>
   (nat \<times> byte list \<times> ilzrwstream_impl) result" where
  "ilzrw_try_read_loop this buffer dst amount remaining w =
     (if remaining > 0 then
        (case ilzrw_token this buffer (dst + (amount - remaining)) w of
           Inl e \<Rightarrow> Inl e
         | Inr ((buffer', this'), w') \<Rightarrow>
             ilzrw_try_read_loop this' buffer' dst amount remaining w')
      else Inr ((0, buffer, this), w))"
  by pat_completeness auto
termination
proof (relation "measure (\<lambda>(this, buffer, dst, amount, remaining, w).
                    length (file_data w) - file_pos w)")
  show "wf (measure (\<lambda>(this :: ilzrwstream_impl, buffer :: byte list, dst :: nat,
                       amount :: nat, remaining :: nat, w).
                    length (file_data w) - file_pos w))"
    by simp
next
  fix this buffer dst amount remaining w x2 x y xa ya
  assume "ilzrw_token this buffer (dst + (amount - remaining)) w = Inr x2"
    and "(x, y) = x2" and "(xa, ya) = x"
  then have "ilzrw_token this buffer (dst + (amount - remaining)) w = Inr ((xa, ya), y)"
    by simp
  from ilzrw_token_consumes [OF this]
  have "file_data y = file_data w" "file_pos w < file_pos y"
    "file_pos y \<le> length (file_data w)"
    by simp_all
  then show "((ya, xa, dst, amount, remaining, y), this, buffer, dst, amount, remaining, w)
       \<in> measure (\<lambda>(this, buffer, dst, amount, remaining, w).
                     length (file_data w) - file_pos w)"
    by simp
qed

declare ilzrw_try_read_loop.simps [simp del]

definition ilzrw_try_read ::
  "ilzrwstream_impl \<Rightarrow> byte list \<Rightarrow> nat \<Rightarrow> nat \<Rightarrow> world \<Rightarrow>
   (nat \<times> byte list \<times> ilzrwstream_impl) result" where
  "ilzrw_try_read this buffer dst amount w = ilzrw_try_read_loop this buffer dst amount amount w"

text \<open>
  The specification's reading of a descriptor: the distance has bits 12-15 of the
  descriptor at its bits 8-11 and bits 0-7 of the descriptor at its bits 0-7; the
  length is bits 8-11 of the descriptor plus one.
\<close>

definition spec_distance :: "16 word \<Rightarrow> nat" where
  "spec_distance tmp = unat (push_bit 8 (take_bit 4 (drop_bit 12 tmp)) OR take_bit 8 tmp)"

definition spec_length :: "16 word \<Rightarrow> nat" where
  "spec_length tmp = unat (take_bit 4 (drop_bit 8 tmp)) + 1"

section \<open>Output names and messages\<close>

text \<open>The decimal digits that \<^verbatim>\<open>%zu\<close> and \<^verbatim>\<open>%u\<close> print for an unsigned value.\<close>

definition digits :: string where
  "digits = ''0123456789''"

function decimal :: "nat \<Rightarrow> string" where
  "decimal n =
     (if n < 10 then [digits ! n]
      else decimal (n div 10) @ [digits ! (n mod 10)])"
  by pat_completeness auto
termination
  by (relation "measure (\<lambda>n. n)") auto

declare decimal.simps [simp del]

text \<open>
  \<^verbatim>\<open>std::string::find_last_of(char)\<close>: the position of the last occurrence, \<open>None\<close> for
  \<^verbatim>\<open>npos\<close>.
\<close>

fun find_last_of :: "string \<Rightarrow> char \<Rightarrow> nat option" where
  "find_last_of [] c = None"
| "find_last_of (x # xs) c =
     (case find_last_of xs c of
        Some i \<Rightarrow> Some (Suc i)
      | None \<Rightarrow> if x = c then Some 0 else None)"

text \<open>
  The characters a C function sees behind \<^verbatim>\<open>c_str()\<close>: those before the first NUL.
\<close>

definition c_str :: "string \<Rightarrow> string" where
  "c_str s = takeWhile (\<lambda>c. c \<noteq> CHR 0x00) s"

text \<open>
  The conversion \<^verbatim>\<open>%.*s\<close> of \<^verbatim>\<open>snprintf\<close>: at most \<open>precision\<close> characters of the
  argument; a negative precision counts as none given.
\<close>

definition format_precision_s :: "int \<Rightarrow> string \<Rightarrow> string" where
  "format_precision_s precision s = (if precision < 0 then s else take (nat precision) s)"

text \<open>
  \<^verbatim>\<open>derive_output_filename\<close> (lines 237-251). \<^verbatim>\<open>int(dot)\<close> is the conversion of a
  \<^verbatim>\<open>size_t\<close> to a 32-bit \<^verbatim>\<open>int\<close>. The first \<^verbatim>\<open>snprintf\<close> measures the text and
  returns its length as an \<^verbatim>\<open>int\<close>, \<open>len\<close>:
  \<^item> a text longer than \<^verbatim>\<open>INT_MAX\<close> makes it return a negative number, and
    \<^verbatim>\<open>std::string output_filename(len, 0)\<close> (line 245) throws for the length that
    this number converts to;
  \<^item> a text of exactly \<^verbatim>\<open>INT_MAX\<close> characters overflows \<^verbatim>\<open>len + 1\<close> (line 246);
  \<^item> otherwise the second \<^verbatim>\<open>snprintf\<close> writes the text into the string of that
    length, which is returned.
\<close>

definition derive_output_filename :: "string \<Rightarrow> nat \<Rightarrow> error + string" where
  "derive_output_filename input_filename index =
     (case find_last_of input_filename CHR ''.'' of
        Some dot \<Rightarrow>
          (let formatted =
                 format_precision_s (sint (word_of_nat dot :: 32 word)) (c_str input_filename)
                   @ ''.'' @ decimal index @ ''.bmp''
           in if int (length formatted) > 2147483647 then Inl length_error
              else if int (length formatted) = 2147483647 then Inl int_overflow
              else Inr formatted)
      | None \<Rightarrow> Inr [])"

section \<open>Sinks\<close>

text \<open>
  \<^verbatim>\<open>ofstream::create\<close> (lines 137-142, 183-185): \<^verbatim>\<open>::open\<close> of \<^verbatim>\<open>filename.c_str()\<close>
  with \<^verbatim>\<open>O_CREAT | O_TRUNC\<close>. The empty name is no file: \<^verbatim>\<open>::open\<close> fails and the
  constructor throws. Any other name gives a new, empty output file. The object is its
  position in the list of sinks. The list is the history of what was created: a file
  created again under a name already used replaces the older one on disk.
\<close>

definition ofstream_create :: "string \<Rightarrow> world \<Rightarrow> nat result" where
  "ofstream_create filename w =
     (if c_str filename = [] then Inl (system_error, w)
      else Inr (length (sinks w), w\<lparr>sinks := sinks w @ [(c_str filename, [])]\<rparr>))"

text \<open>
  \<^verbatim>\<open>ofstream_impl::try_write\<close> (lines 161-172): \<^verbatim>\<open>::write\<close> appends the \<open>amount\<close> bytes
  at \<open>buffer + src\<close> to the file and reports all of them written.
\<close>

definition ofstream_try_write :: "nat \<Rightarrow> byte list \<Rightarrow> nat \<Rightarrow> nat \<Rightarrow> world \<Rightarrow> nat result" where
  "ofstream_try_write this buffer src amount w =
     (if amount > 0 then
        Inr (amount,
             w\<lparr>sinks := (sinks w)[this := (fst (sinks w ! this),
                                            snd (sinks w ! this) @ take amount (drop src buffer))]\<rparr>)
      else Inr (0, w))"

text \<open>\<^verbatim>\<open>ostream::write(const void *, size_t)\<close> (lines 60-71).\<close>

function ostream_write :: "nat \<Rightarrow> byte list \<Rightarrow> nat \<Rightarrow> nat \<Rightarrow> world \<Rightarrow> unit result" where
  "ostream_write this buffer amount remaining w =
     (if remaining > 0 then
        (case ofstream_try_write this buffer (amount - remaining) remaining w of
           Inl e \<Rightarrow> Inl e
         | Inr (res, w') \<Rightarrow>
             if res > 0 then ostream_write this buffer amount (remaining - res) w'
             else Inl (end_of_stream, w'))
      else Inr ((), w))"
  by pat_completeness auto
termination
  by (relation "measure (\<lambda>(this, buffer, amount, remaining, w). remaining)") auto

declare ostream_write.simps [simp del]

section \<open>The archive reader\<close>

text \<open>
  The loop of \<^verbatim>\<open>export_bitmap\<close> (lines 275-280), reading through any implementation
  \<open>try_read\<close> of \<^verbatim>\<open>istream\<close>.
\<close>

function export_bitmap_loop ::
  "('s \<Rightarrow> byte list \<Rightarrow> nat \<Rightarrow> nat \<Rightarrow> world \<Rightarrow> (nat \<times> byte list \<times> 's) result) \<Rightarrow>
   's \<Rightarrow> nat \<Rightarrow> byte list \<Rightarrow> nat \<Rightarrow> world \<Rightarrow> 's result" where
  "export_bitmap_loop try_read input output buffer remaining w =
     (if remaining > 0 then
        (let len = min remaining 4096
         in case istream_read try_read input buffer len len w of
              Inl e \<Rightarrow> Inl e
            | Inr ((buffer', input'), w') \<Rightarrow>
                (case ostream_write output buffer' len len w' of
                   Inl e \<Rightarrow> Inl e
                 | Inr (u, w'') \<Rightarrow>
                     export_bitmap_loop try_read input' output buffer' (remaining - len) w''))
      else Inr (input, w))"
  by pat_completeness auto
termination
  by (relation "measure (\<lambda>(try_read, input, output, buffer, remaining, w). remaining)") auto

declare export_bitmap_loop.simps [simp del]

text \<open>
  \<^verbatim>\<open>export_bitmap\<close> (lines 268-281). The 4096 bytes of \<open>buffer\<close> are indeterminate
  when the loop starts; a pass writes to the sink only the bytes that its read has
  stored, so the initial content, taken as zero here, never reaches a sink.
\<close>

definition export_bitmap ::
  "('s \<Rightarrow> byte list \<Rightarrow> nat \<Rightarrow> nat \<Rightarrow> world \<Rightarrow> (nat \<times> byte list \<times> 's) result) \<Rightarrow>
   's \<Rightarrow> string \<Rightarrow> nat \<Rightarrow> world \<Rightarrow> 's result" where
  "export_bitmap try_read input filename amount w =
     (case ofstream_create filename w of
        Inl e \<Rightarrow> Inl e
      | Inr (output, w') \<Rightarrow>
          export_bitmap_loop try_read input output (replicate 4096 0) amount w')"

text \<open>\<^verbatim>\<open>export_plain_bitmap\<close> (lines 283-291).\<close>

definition export_plain_bitmap :: "string \<Rightarrow> nat \<Rightarrow> world \<Rightarrow> unit result" where
  "export_plain_bitmap input_filename index w =
     (case read_word 4 w of
        Inl e \<Rightarrow> Inl e
      | Inr (size' :: 32 word, w1) \<Rightarrow>
     (case derive_output_filename input_filename index of
        Inl e \<Rightarrow> Inl (e, w1)
      | Inr output_filename \<Rightarrow>
          (case export_bitmap ifstream_try_read () output_filename (unat size') w1 of
             Inl e \<Rightarrow> Inl e
           | Inr (stream, w2) \<Rightarrow> Inr ((), w2))))"

text \<open>
  \<^verbatim>\<open>export_compressed_bitmap\<close> (lines 293-304). \<open>storage\<close> is what the memory of the new
  decoder held before its constructor ran.
\<close>

definition export_compressed_bitmap ::
  "byte list \<Rightarrow> string \<Rightarrow> nat \<Rightarrow> world \<Rightarrow> unit result" where
  "export_compressed_bitmap storage input_filename index w =
     (case read_word 4 w of
        Inl e \<Rightarrow> Inl e
      | Inr (size1 :: 32 word, w1) \<Rightarrow>
     (case read_word 4 w1 of
        Inl e \<Rightarrow> Inl e
      | Inr (size2 :: 32 word, w2) \<Rightarrow>
     (case read_word 1 w2 of
        Inl e \<Rightarrow> Inl e
      | Inr (unknown :: 8 word, w3) \<Rightarrow>
     (case derive_output_filename input_filename index of
        Inl e \<Rightarrow> Inl (e, w3)
      | Inr output_filename \<Rightarrow>
          (case export_bitmap ilzrw_try_read (ilzrwstream_wrap storage)
                  output_filename (unat size1) w3 of
             Inl e \<Rightarrow> Inl e
           | Inr (compressed, w4) \<Rightarrow> Inr ((), w4))))))"

text \<open>\<^verbatim>\<open>is_bitmap_list\<close> (lines 306-308): the eight bytes are those of \<^verbatim>\<open>LMDBML30\<close>.\<close>

definition is_bitmap_list :: "byte list \<Rightarrow> bool" where
  "is_bitmap_list magic = (magic = [0x4C, 0x4D, 0x44, 0x42, 0x4D, 0x4C, 0x33, 0x30])"

text \<open>The first loop of the archive reader (lines 319-321): the table of offsets.\<close>

function read_offsets :: "nat \<Rightarrow> nat \<Rightarrow> 32 word list \<Rightarrow> world \<Rightarrow> (32 word list) result" where
  "read_offsets count i offsets w =
     (if i < count then
        (case read_word 4 w of
           Inl e \<Rightarrow> Inl e
         | Inr (v, w') \<Rightarrow> read_offsets count (i + 1) (offsets[i := v]) w')
      else Inr (offsets, w))"
  by pat_completeness auto
termination
  by (relation "measure (\<lambda>(count, i, offsets, w). count - i)") auto

declare read_offsets.simps [simp del]

text \<open>
  One pass of the second loop (lines 324-332): seek to the entry, read its type,
  export it. \<open>storage\<close> is the memory that a decoder made in this pass is built in.
\<close>

definition extract_entry ::
  "byte list \<Rightarrow> string \<Rightarrow> nat \<Rightarrow> 32 word \<Rightarrow> world \<Rightarrow> unit result" where
  "extract_entry storage input_filename i offset w =
     (case seek (unat offset) w of
        Inl e \<Rightarrow> Inl e
      | Inr (u, w1) \<Rightarrow>
     (case read_word 1 w1 of
        Inl e \<Rightarrow> Inl e
      | Inr (type :: 8 word, w2) \<Rightarrow>
          if type = 8 then export_plain_bitmap input_filename i w2
          else if type = 9 then export_compressed_bitmap storage input_filename i w2
          else Inl (runtime_error (''unknown type: '' @ decimal (unat type)), w2)))"

text \<open>
  The second loop (line 323). \<open>storage i\<close> is the memory of the decoder of entry
  \<open>i\<close>.
\<close>

function extract_loop ::
  "(nat \<Rightarrow> byte list) \<Rightarrow> string \<Rightarrow> 32 word list \<Rightarrow> nat \<Rightarrow> nat \<Rightarrow> world \<Rightarrow> unit result" where
  "extract_loop storage input_filename offsets count i w =
     (if i < count then
        (case extract_entry (storage i) input_filename i (offsets ! i) w of
           Inl e \<Rightarrow> Inl e
         | Inr (u, w') \<Rightarrow> extract_loop storage input_filename offsets count (i + 1) w')
      else Inr ((), w))"
  by pat_completeness auto
termination
  by (relation "measure (\<lambda>(storage, input_filename, offsets, count, i, w). count - i)") auto

declare extract_loop.simps [simp del]

text \<open>
  The function \<^verbatim>\<open>extract\<close> of the program (lines 310-340), on an input file that
  opens and holds \<open>contents\<close>. \<^verbatim>\<open>puts\<close> prints the name as a C string.
\<close>

definition extract_archive :: "(nat \<Rightarrow> byte list) \<Rightarrow> string \<Rightarrow> byte list \<Rightarrow> unit result" where
  "extract_archive storage input_filename contents =
     (let w0 = \<lparr>file_data = contents, file_pos = 0, sinks = [],
                console = [c_str input_filename]\<rparr>
      in case read_word 1 w0 of
           Inl e \<Rightarrow> Inl e
         | Inr (version :: 8 word, w1) \<Rightarrow>
             if version = 8 then
               (case read_bytes 8 w1 of
                  Inl e \<Rightarrow> Inl e
                | Inr (magic, w2) \<Rightarrow>
                    if is_bitmap_list magic then
                      (case read_word 4 w2 of
                         Inl e \<Rightarrow> Inl e
                       | Inr (count :: 32 word, w3) \<Rightarrow>
                      (case read_offsets (unat count) 0 (replicate (unat count) 0) w3 of
                         Inl e \<Rightarrow> Inl e
                       | Inr (offsets, w4) \<Rightarrow>
                           extract_loop storage input_filename offsets (unat count) 0 w4))
                    else Inr ((), w2\<lparr>console := console w2 @ [''Does not contain images'']\<rparr>))
             else Inl (runtime_error (''unknown version: '' @ decimal (unat version)), w1))"

text \<open>
  The world in which a freshly opened file holds \<open>contents\<close> and nothing has been
  written or printed yet.
\<close>

definition opened :: "byte list \<Rightarrow> world" where
  "opened contents = \<lparr>file_data = contents, file_pos = 0, sinks = [], console = []\<rparr>"

text \<open>Storage that happens to hold zeros, for every decoder.\<close>

definition zero_storage :: "nat \<Rightarrow> byte list" where
  "zero_storage i = replicate 4096 0"

text \<open>
  The archive of the specification's end-to-end scenario: version 8, the tag, one entry
  at offset 17, plain, of size 4, with the payload \<open>DE AD BE EF\<close>.
\<close>

definition example_plain :: "byte list" where
  "example_plain =
     [8, 0x4C, 0x4D, 0x44, 0x42, 0x4D, 0x4C, 0x33, 0x30, 1, 0, 0, 0, 17, 0, 0, 0,
      8, 4, 0, 0, 0, 0xDE, 0xAD, 0xBE, 0xEF]"

text \<open>
  An archive whose only entry, at offset 17, is plain with the size bytes
  \<open>04 03 02 01\<close>, that is 16909060, and a payload of so many bytes \<open>0x5A\<close>.
\<close>

definition example_sized :: "byte list" where
  "example_sized =
     [8, 0x4C, 0x4D, 0x44, 0x42, 0x4D, 0x4C, 0x33, 0x30, 1, 0, 0, 0, 17, 0, 0, 0,
      8, 0x04, 0x03, 0x02, 0x01] @ replicate 16909060 0x5A"

text \<open>
  The archive of the specification's second scenario: one compressed entry at offset
  17 with decoded size 5, encoded size 5 and flags 0, whose stream is the control word
  \<open>0x0002\<close>, the literal \<open>0x41\<close> and the descriptor \<open>0x0301\<close> (distance 1, length 4).
\<close>

definition example_compressed :: "byte list" where
  "example_compressed =
     [8, 0x4C, 0x4D, 0x44, 0x42, 0x4D, 0x4C, 0x33, 0x30, 1, 0, 0, 0, 17, 0, 0, 0,
      9, 5, 0, 0, 0, 5, 0, 0, 0, 0,
      0x02, 0x00, 0x41, 0x01, 0x03]"

text \<open>
  An archive of three entries: a plain one of size 1 at offset 25, one of the unknown
  type 255 at offset 31, and a plain one of size 1 at offset 32.
\<close>

definition example_three :: "byte list" where
  "example_three =
     [8, 0x4C, 0x4D, 0x44, 0x42, 0x4D, 0x4C, 0x33, 0x30, 3, 0, 0, 0,
      25, 0, 0, 0, 31, 0, 0, 0, 32, 0, 0, 0,
      8, 1, 0, 0, 0, 0x77,
      255,
      8, 1, 0, 0, 0, 0x99]"

text \<open>An archive whose only entry, at offset 17, has the unknown type 255.\<close>

definition example_unknown :: "byte list" where
  "example_unknown =
     [8, 0x4C, 0x4D, 0x44, 0x42, 0x4D, 0x4C, 0x33, 0x30, 1, 0, 0, 0, 17, 0, 0, 0, 255]"

text \<open>
  The specification's reading of \<open>N\<close> in a name \<^verbatim>\<open>.N.bmp\<close>, apart from the code that
  prints it. \<open>decimal_value\<close> is the number that a string of decimal digits denotes,
  read from the left. \<open>decimal_numeral n ds\<close> says that \<open>ds\<close> is the decimal numeral
  of \<open>n\<close>: it is not empty, made of the digits 0 to 9, without a leading zero
  (the numeral of 0 is the one digit 0), and denotes \<open>n\<close>.
\<close>

definition decimal_value :: "string \<Rightarrow> nat" where
  "decimal_value s = foldl (\<lambda>v c. 10 * v + (of_char c - 48)) 0 s"

definition decimal_numeral :: "nat \<Rightarrow> string \<Rightarrow> bool" where
  "decimal_numeral n ds =
     (ds \<noteq> [] \<and> set ds \<subseteq> set ''0123456789'' \<and> (ds = ''0'' \<or> hd ds \<noteq> CHR ''0'')
      \<and> decimal_value ds = n)"

section \<open>Properties of the window decoder\<close>

subsection \<open>Descriptors\<close>

lemma mask_0xff: "(0xff::16 word) = mask 8"
  by (simp add: mask_eq_exp_minus_1)
lemma mask_0xf00: "(0xf00::16 word) = push_bit 8 (mask 4)"
  by (simp add: mask_eq_exp_minus_1 push_bit_eq_mult)
lemma mask_0xf000: "(0xf000::16 word) = push_bit 12 (mask 4)"
  by (simp add: mask_eq_exp_minus_1 push_bit_eq_mult)

lemma descriptor_ofs_spec: "descriptor_ofs tmp = spec_distance tmp"
  unfolding descriptor_ofs_def spec_distance_def mask_0xff mask_0xf000
  by (rule arg_cong [where f = unat], rule bit_word_eqI) (auto simp add: bit_simps)

lemma descriptor_len_spec: "descriptor_len tmp = spec_length tmp"
  unfolding descriptor_len_def spec_length_def mask_0xf00
  by (simp, rule arg_cong [where f = unat], rule bit_word_eqI) (auto simp add: bit_simps)

text \<open>
  C6. For every 16-bit descriptor, the distance computed on line 216 is bits 12-15 of
  the descriptor moved to bit positions 8-11, OR-ed with bits 0-7 of the descriptor,
  and the length computed on line 217 is bits 8-11 of the descriptor plus one (so a
  stored nibble of 0 is length 1).
\<close>

theorem descriptor_fields:
  "descriptor_ofs tmp = spec_distance tmp \<and> descriptor_len tmp = spec_length tmp"
  by (simp add: descriptor_ofs_spec descriptor_len_spec)

text \<open>
  The same reading in arithmetic: with the descriptor \<open>t\<close> as a number, the distance is
  \<open>(t div 4096) * 256 + t mod 256\<close> and the length is \<open>t div 256 mod 16 + 1\<close>.
\<close>

lemma spec_length_arith: "spec_length tmp = unat tmp div 256 mod 16 + 1"
  by (simp add: spec_length_def take_bit_eq_mod drop_bit_eq_div unat_div_distrib unat_mod_distrib)

lemma spec_distance_arith: "spec_distance tmp = (unat tmp div 4096) * 256 + unat tmp mod 256"
proof -
  let ?a = "push_bit 8 (take_bit 4 (drop_bit 12 tmp)) :: 16 word"
  let ?b = "take_bit 8 tmp :: 16 word"
  have lt: "unat tmp div 4096 < 16"
  proof -
    have "unat tmp < 2 ^ LENGTH(16)" by (rule unsigned_less)
    then show ?thesis by simp
  qed
  have "?a OR ?b = ?a + ?b"
    by (rule disjunctive_add [symmetric]) (auto simp add: bit_simps)
  moreover have ub: "unat ?b = unat tmp mod 256"
    by (simp add: take_bit_eq_mod unat_mod_distrib)
  moreover have ua: "unat ?a = (unat tmp div 4096) * 256"
    using lt
    by (simp add: push_bit_eq_mult take_bit_eq_mod drop_bit_eq_div unat_div_distrib
        unat_mod_distrib unat_word_ariths)
  moreover have "unat (?a + ?b) = unat ?a + unat ?b"
    using lt by (subst unat_add_lem [THEN iffD1]) (simp_all add: ua ub)
  ultimately show ?thesis
    by (simp add: spec_distance_def)
qed

text \<open>The ranges of the two fields: a distance of 0..4095 and a length of 1..16.\<close>

lemma descriptor_ofs_bound: "descriptor_ofs tmp < 4096"
proof -
  let ?x = "push_bit 8 (take_bit 4 (drop_bit 12 tmp)) OR take_bit 8 tmp :: 16 word"
  have "take_bit 12 ?x = ?x"
    by (rule bit_word_eqI) (auto simp add: bit_simps)
  then have "unat ?x = unat (take_bit 12 ?x)"
    by (rule arg_cong [OF sym])
  also have "\<dots> = take_bit 12 (unat ?x)"
    by (rule unsigned_take_bit_eq)
  also have "\<dots> < 2 ^ 12"
    by (rule take_bit_nat_less_exp)
  finally show ?thesis
    by (simp add: descriptor_ofs_spec spec_distance_def)
qed

lemma descriptor_len_bound: "1 \<le> descriptor_len tmp \<and> descriptor_len tmp \<le> 16"
proof -
  let ?x = "take_bit 4 (drop_bit 8 tmp) :: 16 word"
  have "unat ?x = take_bit 4 (unat (drop_bit 8 tmp))"
    by (rule unsigned_take_bit_eq)
  also have "\<dots> < 2 ^ 4"
    by (rule take_bit_nat_less_exp)
  finally show ?thesis
    by (simp add: descriptor_len_spec spec_length_def)
qed

subsection \<open>A read through the decoder\<close>

text \<open>
  The loop of \<^verbatim>\<open>try_read\<close> never leaves through its condition once it was entered:
  whatever the input, a call with \<open>amount > 0\<close> ends in a throw.
\<close>

lemma ilzrw_try_read_loop_throws:
  "remaining > 0 \<Longrightarrow> isl (ilzrw_try_read_loop this buffer dst amount remaining w)"
proof (induction this buffer dst amount remaining w rule: ilzrw_try_read_loop.induct)
  case (1 this buffer dst amount remaining w)
  note pos = \<open>0 < remaining\<close>
  show ?case
  proof (cases "ilzrw_token this buffer (dst + (amount - remaining)) w")
    case (Inl e)
    have "ilzrw_try_read_loop this buffer dst amount remaining w = Inl e"
      by (subst ilzrw_try_read_loop.simps) (simp add: pos Inl)
    then show ?thesis by simp
  next
    case (Inr r)
    obtain buffer' this' w' where r: "r = ((buffer', this'), w')"
      by (cases r) auto
    have tok: "ilzrw_token this buffer (dst + (amount - remaining)) w = Inr ((buffer', this'), w')"
      by (simp add: Inr r)
    have "isl (ilzrw_try_read_loop this' buffer' dst amount remaining w')"
      by (rule "1.IH" [OF pos tok refl refl pos])
    moreover have "ilzrw_try_read_loop this buffer dst amount remaining w =
        ilzrw_try_read_loop this' buffer' dst amount remaining w'"
      by (subst ilzrw_try_read_loop.simps) (simp add: pos tok)
    ultimately show ?thesis by simp
  qed
qed

lemma ilzrw_try_read_throws:
  "amount > 0 \<Longrightarrow> isl (ilzrw_try_read this buffer dst amount w)"
  by (simp add: ilzrw_try_read_def ilzrw_try_read_loop_throws)

text \<open>
  So \<^verbatim>\<open>istream::read\<close> through a decoder throws whenever it is asked for a byte, and
  \<^verbatim>\<open>export_bitmap\<close> from a decoder throws for every decoded size but 0.
\<close>

lemma istream_read_ilzrw_throws:
  "remaining > 0 \<Longrightarrow> isl (istream_read ilzrw_try_read this buffer amount remaining w)"
  using ilzrw_try_read_throws [of remaining this buffer "amount - remaining" w]
  by (subst istream_read.simps) (auto simp add: isl_def)

lemma export_bitmap_ilzrw_throws:
  "amount > 0 \<Longrightarrow> isl (export_bitmap ilzrw_try_read this filename amount w)"
proof (cases "c_str filename = []")
  case True
  then show ?thesis
    by (simp add: export_bitmap_def ofstream_create_def)
next
  case False
  assume "amount > 0"
  with False show ?thesis
    using istream_read_ilzrw_throws [of "min amount 4096" this "replicate 4096 0"
        "min amount 4096" "w\<lparr>sinks := sinks w @ [(c_str filename, [])]\<rparr>"]
    by (subst export_bitmap_def, simp add: ofstream_create_def, subst export_bitmap_loop.simps)
      (auto simp add: isl_def Let_def)
qed

text \<open>
  C1 (the code departs from the claim). The claim: a read of \<open>n > 0\<close> bytes stores
  \<open>n\<close> decoded bytes and returns, and fails with end-of-stream only when the input
  runs out before \<open>n\<close> bytes were produced. The code, asked for one byte of a
  stream that holds the control word 0 and the literals \<open>0x41\<close>, \<open>0x42\<close>, \<open>0x43\<close>:
  it decodes all three literals into the first cell of the buffer, reaches the end of
  the file and throws.
\<close>

theorem try_read_one_byte_throws:
  "ilzrw_try_read (ilzrwstream_wrap (replicate 4096 0)) [0] 0 1
     (opened [0x00, 0x00, 0x41, 0x42, 0x43]) =
   Inl (end_of_stream,
        \<lparr>file_data = [0x00, 0x00, 0x41, 0x42, 0x43], file_pos = 5, sinks = [], console = []\<rparr>)"
  by (simp add: opened_def ilzrw_try_read_def ilzrw_try_read_loop.simps ilzrw_token_def
      read_word_def read_bytes_eq ilzrwstream_wrap_def)

text \<open>
  C2 (the code departs from the claim). The claim: every token uses up one control
  bit, the control field being shifted right by one and the counter decremented. The
  code, on the control word \<open>0x0002\<close> (first token a literal, second token a
  back-reference): after the first token the field is still \<open>2\<close> and the counter
  still \<open>16\<close>, and the second token is decoded as a literal again, from bit 0 of the
  same field.
\<close>

theorem control_word_never_advances:
  "ilzrw_token (ilzrwstream_wrap (replicate 4096 0)) [0] 0 (opened [0x02, 0x00, 0x41, 0x05, 0x00]) =
     Inr (([0x41],
           \<lparr>m_window = (replicate 4096 0)[0 := 0x41], m_window_index = 1,
              m_control_bits = 2, m_control_remaining = 16\<rparr>),
          \<lparr>file_data = [0x02, 0x00, 0x41, 0x05, 0x00], file_pos = 3, sinks = [], console = []\<rparr>)
   \<and> ilzrw_token
         \<lparr>m_window = (replicate 4096 0)[0 := 0x41], m_window_index = 1,
            m_control_bits = 2, m_control_remaining = 16\<rparr>
         [0x41] 0
         \<lparr>file_data = [0x02, 0x00, 0x41, 0x05, 0x00], file_pos = 3, sinks = [], console = []\<rparr> =
     Inr (([0x05],
           \<lparr>m_window = (replicate 4096 0)[0 := 0x41, 1 := 0x05], m_window_index = 2,
              m_control_bits = 2, m_control_remaining = 16\<rparr>),
          \<lparr>file_data = [0x02, 0x00, 0x41, 0x05, 0x00], file_pos = 4, sinks = [], console = []\<rparr>)"
  by (simp add: opened_def ilzrw_token_def read_word_def read_bytes_eq ilzrwstream_wrap_def)

text \<open>After any token that returns, the counter is not 0: no second control word is read.\<close>

lemma ilzrw_token_control:
  assumes "ilzrw_token this buffer dst w = Inr ((buffer', this'), w')"
  shows "m_control_remaining this' =
    (if m_control_remaining this = 0 then 16 else m_control_remaining this)"
  using assms
  by (auto simp add: ilzrw_token_def split: sum.splits if_splits)

text \<open>
  C3 (the code departs from the claim). The claim: a back-reference of length \<open>L\<close>
  copies \<open>L\<close> bytes to successive output positions and into the window, moving the
  cursor on by \<open>L\<close>. The code, on a back-reference of distance 2 and length 2 into a
  buffer of two cells holding \<open>0xEE\<close>: both bytes go to the first cell, the second
  cell keeps \<open>0xEE\<close>, and the window and its cursor are as before.
\<close>

theorem backref_stores_at_one_position:
  "ilzrw_token (ilzrwstream_wrap (replicate 4096 0)) [0xEE, 0xEE] 0 (opened [0x01, 0x00, 0x02, 0x01]) =
     Inr (([0x00, 0xEE],
           \<lparr>m_window = replicate 4096 0, m_window_index = 0,
              m_control_bits = 1, m_control_remaining = 16\<rparr>),
          \<lparr>file_data = [0x01, 0x00, 0x02, 0x01], file_pos = 4, sinks = [], console = []\<rparr>)"
  by (simp add: opened_def ilzrw_token_def read_word_def read_bytes_eq ilzrwstream_wrap_def
      descriptor_ofs_def descriptor_len_def backref_loop.simps)

text \<open>
  C4 (the code departs from the claim). The claim: the window of a new decoder is
  zero-filled, so a back-reference to a cell not yet written reads 0. The code: the
  constructor does not write \<open>m_window\<close>; when the storage held \<open>0xAA\<close>, a first
  token that is a back-reference of distance 1 and length 1 delivers \<open>0xAA\<close>.
\<close>

theorem window_keeps_storage:
  "ilzrw_token (ilzrwstream_wrap (replicate 4096 0xAA)) [0x00] 0 (opened [0x01, 0x00, 0x01, 0x00]) =
     Inr (([0xAA],
           \<lparr>m_window = replicate 4096 0xAA, m_window_index = 0,
              m_control_bits = 1, m_control_remaining = 16\<rparr>),
          \<lparr>file_data = [0x01, 0x00, 0x01, 0x00], file_pos = 4, sinks = [], console = []\<rparr>)"
  by (simp add: opened_def ilzrw_token_def read_word_def read_bytes_eq ilzrwstream_wrap_def
      descriptor_ofs_def descriptor_len_def backref_loop.simps)

text \<open>
  C5 (the code departs from the claim). The claim: for a distance in 0..4095 and a
  length in 1..16 every read of the window uses an index in 0..4095. The code, on a
  first token that is a back-reference of distance 1 and length 2: the first read is
  at index 4095, the second at index 4096, one past the array.
\<close>

theorem backref_reads_past_window:
  "ilzrw_token (ilzrwstream_wrap (replicate 4096 0)) [0x00, 0x00] 0 (opened [0x01, 0x00, 0x01, 0x01]) =
     Inl (out_of_bounds 4096,
          \<lparr>file_data = [0x01, 0x00, 0x01, 0x01], file_pos = 4, sinks = [], console = []\<rparr>)"
  by (simp add: opened_def ilzrw_token_def read_word_def read_bytes_eq ilzrwstream_wrap_def
      descriptor_ofs_def descriptor_len_def backref_loop.simps)

section \<open>Properties of the output names\<close>

subsection \<open>Decimal numerals\<close>

lemma digits_set: "set ''0123456789'' = set digits"
  by (simp add: digits_def)

lemma digit_char: "d < 10 \<Longrightarrow> of_char (digits ! d) = (48 + d :: nat)"
  by (auto simp add: digits_def eval_nat_numeral less_Suc_eq)

lemma digit_index:
  assumes "c \<in> set digits"
  shows "\<exists>d<10. c = digits ! d"
proof -
  have "length digits = 10"
    by (simp add: digits_def)
  with assms show ?thesis
    by (metis in_set_conv_nth)
qed

lemma digit_zero: "d < 10 \<Longrightarrow> digits ! d = CHR ''0'' \<longleftrightarrow> d = 0"
  by (auto simp add: digits_def eval_nat_numeral less_Suc_eq)

lemma digit_mem: "d < 10 \<Longrightarrow> digits ! d \<in> set digits"
  by (rule nth_mem) (simp add: digits_def)

lemma decimal_digits: "set (decimal n) \<subseteq> set digits"
proof (induction n rule: decimal.induct)
  case (1 n)
  have d: "digits ! (n mod 10) \<in> set digits"
    by (rule digit_mem) simp
  show ?case
  proof (cases "n < 10")
    case True
    then have "digits ! n \<in> set digits"
      by (rule digit_mem)
    with True show ?thesis
      by (subst decimal.simps) simp
  next
    case False
    with 1 have "set (decimal (n div 10)) \<subseteq> set digits"
      by simp
    with False d show ?thesis
      by (subst decimal.simps) simp
  qed
qed

lemma decimal_value_snoc:
  "decimal_value (xs @ [c]) = 10 * decimal_value xs + (of_char c - 48)"
  by (simp add: decimal_value_def)

lemma decimal_value_decimal: "decimal_value (decimal n) = n"
proof (induction n rule: decimal.induct)
  case (1 n)
  show ?case
  proof (cases "n < 10")
    case True
    then show ?thesis
      by (subst decimal.simps) (simp add: decimal_value_def digit_char)
  next
    case False
    with 1 have "decimal_value (decimal (n div 10)) = n div 10" by simp
    moreover have "decimal n = decimal (n div 10) @ [digits ! (n mod 10)]"
      using False by (subst decimal.simps) simp
    ultimately show ?thesis
      by (simp add: decimal_value_snoc digit_char)
  qed
qed

lemma decimal_value_pos:
  "xs \<noteq> [] \<Longrightarrow> set xs \<subseteq> set digits \<Longrightarrow> hd xs \<noteq> CHR ''0'' \<Longrightarrow> 0 < decimal_value xs"
proof (induction xs rule: rev_induct)
  case Nil
  then show ?case by simp
next
  case (snoc c xs)
  from snoc.prems(2) have "c \<in> set digits" by simp
  then obtain d where d: "d < 10" "c = digits ! d"
    using digit_index by blast
  show ?case
  proof (cases "xs = []")
    case True
    with snoc.prems(3) d have "d \<noteq> 0"
      using digit_zero [of d] by auto
    with True d show ?thesis
      by (simp add: decimal_value_def digit_char)
  next
    case False
    with snoc have "0 < decimal_value xs" by simp
    then show ?thesis
      by (simp add: decimal_value_snoc)
  qed
qed

lemma decimal_of_numeral:
  "ds \<noteq> [] \<Longrightarrow> set ds \<subseteq> set digits \<Longrightarrow> ds = ''0'' \<or> hd ds \<noteq> CHR ''0'' \<Longrightarrow>
   decimal (decimal_value ds) = ds"
proof (induction ds rule: rev_induct)
  case Nil
  then show ?case by simp
next
  case (snoc c xs)
  from snoc.prems(2) have "c \<in> set digits" by simp
  then obtain d where d: "d < 10" "c = digits ! d"
    using digit_index by blast
  have v: "decimal_value (xs @ [c]) = 10 * decimal_value xs + d"
    using d by (simp add: decimal_value_snoc digit_char)
  show ?case
  proof (cases "xs = []")
    case True
    with d v show ?thesis
      by (subst decimal.simps) (simp add: decimal_value_def)
  next
    case False
    then have "xs @ [c] \<noteq> ''0''" by (cases xs) simp_all
    with snoc.prems(3) False have h: "hd xs \<noteq> CHR ''0''" by simp
    with False snoc.prems(2) have pos: "0 < decimal_value xs"
      by (intro decimal_value_pos) simp_all
    have "decimal (decimal_value xs) = xs"
      using False snoc.prems(2) h by (intro snoc.IH) simp_all
    moreover have "decimal (10 * decimal_value xs + d) =
        decimal (decimal_value xs) @ [digits ! d]"
      using pos d by (subst decimal.simps) simp
    ultimately show ?thesis
      using v by (simp add: d(2))
  qed
qed

text \<open>
  \<open>decimal\<close> prints the decimal numeral of its argument, and no other string is the
  decimal numeral of that number.
\<close>

lemma decimal_nonempty: "decimal n \<noteq> []"
  by (subst decimal.simps) simp

lemma hd_decimal: "n \<noteq> 0 \<Longrightarrow> hd (decimal n) \<noteq> CHR ''0''"
proof (induction n rule: decimal.induct)
  case (1 n)
  show ?case
  proof (cases "n < 10")
    case True
    with "1.prems" show ?thesis
      by (subst decimal.simps) (simp add: digit_zero)
  next
    case False
    with 1 have "hd (decimal (n div 10)) \<noteq> CHR ''0''"
      by simp
    with False show ?thesis
      by (subst decimal.simps) (simp add: decimal_nonempty)
  qed
qed

lemma decimal_numeral_decimal: "decimal_numeral n (decimal n)"
proof -
  have "decimal n = ''0'' \<or> hd (decimal n) \<noteq> CHR ''0''"
  proof (cases "n = 0")
    case True
    then show ?thesis
      by (subst decimal.simps) (simp add: digits_def)
  next
    case False
    then show ?thesis
      by (simp add: hd_decimal)
  qed
  then show ?thesis
    unfolding decimal_numeral_def digits_set
    by (simp add: decimal_nonempty decimal_digits decimal_value_decimal)
qed

lemma decimal_numeral_unique: "decimal_numeral n ds \<Longrightarrow> ds = decimal n"
  unfolding decimal_numeral_def digits_set
  using decimal_of_numeral [of ds] by auto

subsection \<open>The derived name\<close>

lemma find_last_of_None: "find_last_of s c = None \<longleftrightarrow> c \<notin> set s"
  by (induction s) (auto split: option.splits)

lemma find_last_of_append:
  "c \<notin> set suf \<Longrightarrow> find_last_of (pre @ c # suf) c = Some (length pre)"
proof (induction pre)
  case Nil
  then have "find_last_of suf c = None"
    by (simp add: find_last_of_None)
  then show ?case by simp
next
  case (Cons x pre)
  then show ?case by simp
qed

lemma sint_of_small_nat:
  assumes "n < 2 ^ 31"
  shows "sint (word_of_nat n :: 32 word) = int n"
proof -
  have "unat (word_of_nat n :: 32 word) = n"
    using assms by (simp add: unat_of_nat)
  then have "uint (word_of_nat n :: 32 word) = int n"
    by (simp add: uint_nat)
  moreover have "signed_take_bit 31 (int n) = int n"
    using assms by (intro signed_take_bit_int_eq_self) simp_all
  ultimately show ?thesis
    by (simp add: sint_uint)
qed

lemma c_str_take:
  assumes "CHR 0x00 \<notin> set pre"
  shows "take (length pre) (c_str (pre @ rest)) = pre"
proof -
  have "takeWhile (\<lambda>c. c \<noteq> CHR 0x00) (pre @ rest) = pre @ takeWhile (\<lambda>c. c \<noteq> CHR 0x00) rest"
    using assms by (intro takeWhile_append2) auto
  then show ?thesis
    by (simp add: c_str_def)
qed

lemma c_str_no_nul: "CHR 0x00 \<notin> set (c_str s)"
  by (auto simp add: c_str_def dest: set_takeWhileD)

lemma c_str_id: "CHR 0x00 \<notin> set s \<Longrightarrow> c_str s = s"
  by (auto simp add: c_str_def)

text \<open>A derived name has no NUL in it: \<^verbatim>\<open>c_str()\<close> of it is all of it.\<close>

lemma derive_output_filename_c_str:
  assumes "derive_output_filename input_filename index = Inr output_filename"
  shows "c_str output_filename = output_filename"
proof (cases "find_last_of input_filename CHR ''.''")
  case None
  with assms show ?thesis
    by (simp add: derive_output_filename_def c_str_def)
next
  case (Some dot)
  let ?p = "format_precision_s (sint (word_of_nat dot :: 32 word)) (c_str input_filename)"
  have "set ?p \<subseteq> set (c_str input_filename)"
    by (auto simp add: format_precision_s_def dest: in_set_takeD)
  then have "CHR 0x00 \<notin> set ?p"
    using c_str_no_nul by blast
  moreover have "CHR 0x00 \<notin> set (decimal index)"
    using decimal_digits [of index] by (auto simp add: digits_def)
  moreover from assms Some have "output_filename = ?p @ ''.'' @ decimal index @ ''.bmp''"
    by (simp add: derive_output_filename_def Let_def split: if_splits)
  ultimately show ?thesis
    by (intro c_str_id) simp
qed

text \<open>
  C10. For a file name \<open>pre @ ''.'' @ suf\<close> whose last dot is the one shown (\<open>suf\<close> has
  none) and an entry index whose decimal numeral is \<open>ds\<close>, the derived name is \<open>pre\<close>
  followed by a dot, \<open>ds\<close> and \<^verbatim>\<open>.bmp\<close>; for a file name without a dot the derived name
  is empty. The first part is for names as a file system has them: no NUL before the
  last dot, and a derived name shorter than \<^verbatim>\<open>INT_MAX\<close>, the length that the code keeps
  in an \<^verbatim>\<open>int\<close>.
\<close>

theorem derived_name:
  "(CHR 0x00 \<notin> set pre \<and> CHR ''.'' \<notin> set suf \<and> decimal_numeral index ds
      \<and> length pre + length ds + 5 < 2147483647 \<longrightarrow>
      derive_output_filename (pre @ ''.'' @ suf) index = Inr (pre @ ''.'' @ ds @ ''.bmp''))
   \<and> (CHR ''.'' \<notin> set input_filename \<longrightarrow> derive_output_filename input_filename index = Inr [])"
proof (intro conjI impI)
  assume a: "CHR 0x00 \<notin> set pre \<and> CHR ''.'' \<notin> set suf \<and> decimal_numeral index ds
      \<and> length pre + length ds + 5 < 2147483647"
  then have ds: "decimal index = ds"
    using decimal_numeral_unique [of index ds] by simp
  from a have "find_last_of (pre @ ''.'' @ suf) CHR ''.'' = Some (length pre)"
    by (simp add: find_last_of_append)
  moreover have "sint (word_of_nat (length pre) :: 32 word) = int (length pre)"
    using a by (intro sint_of_small_nat) simp
  moreover have "take (length pre) (c_str (pre @ ''.'' @ suf)) = pre"
    using a by (simp add: c_str_take)
  ultimately show "derive_output_filename (pre @ ''.'' @ suf) index =
      Inr (pre @ ''.'' @ ds @ ''.bmp'')"
    using a by (simp add: derive_output_filename_def format_precision_s_def ds)
next
  assume "CHR ''.'' \<notin> set input_filename"
  then have "find_last_of input_filename CHR ''.'' = None"
    by (simp add: find_last_of_None)
  then show "derive_output_filename input_filename index = Inr []"
    by (simp add: derive_output_filename_def)
qed

theorem derived_name_witness:
  "derive_output_filename ''a.b.ris'' 1203 = Inr ''a.b.1203.bmp''
   \<and> derive_output_filename ''abris'' 1203 = Inr []"
  using derived_name [of "''a.b''" "''ris''" 1203 "''1203''" "''abris''"]
  by (simp add: decimal_numeral_def decimal_value_def)

text \<open>Past that length the function throws instead of returning a name.\<close>

lemma derived_name_too_long:
  "length pre + length (decimal index) + 5 > 2147483647 \<and> CHR 0x00 \<notin> set pre \<and> CHR ''.'' \<notin> set suf
   \<and> length pre < 2147483648 \<longrightarrow>
   derive_output_filename (pre @ ''.'' @ suf) index = Inl length_error"
proof
  assume a: "length pre + length (decimal index) + 5 > 2147483647 \<and> CHR 0x00 \<notin> set pre
    \<and> CHR ''.'' \<notin> set suf \<and> length pre < 2147483648"
  from a have "find_last_of (pre @ ''.'' @ suf) CHR ''.'' = Some (length pre)"
    by (simp add: find_last_of_append)
  moreover have "sint (word_of_nat (length pre) :: 32 word) = int (length pre)"
    using a by (intro sint_of_small_nat) simp
  moreover have "take (length pre) (c_str (pre @ ''.'' @ suf)) = pre"
    using a by (simp add: c_str_take)
  ultimately show "derive_output_filename (pre @ ''.'' @ suf) index = Inl length_error"
    using a by (simp add: derive_output_filename_def format_precision_s_def)
qed

section \<open>Properties of the archive reader\<close>

subsection \<open>Copying a plain entry\<close>

lemma ostream_write_eq:
  "ostream_write this buffer amount remaining w =
     (if remaining = 0 then Inr ((), w)
      else Inr ((), w\<lparr>sinks := (sinks w)[this := (fst (sinks w ! this),
              snd (sinks w ! this) @ take remaining (drop (amount - remaining) buffer))]\<rparr>))"
  apply (subst ostream_write.simps)
  apply (simp add: ofstream_try_write_def)
  apply (subst ostream_write.simps)
  apply simp
  done

lemma take_take_drop: "a \<le> r \<Longrightarrow> take a xs @ take (r - a) (drop a xs) = take r xs"
  by (metis le_add_diff_inverse take_add)

lemma export_bitmap_loop_file:
  assumes "file_pos w + remaining \<le> length (file_data w)"
    and "output < length (sinks w)"
    and "length buffer = 4096"
  shows "export_bitmap_loop ifstream_try_read () output buffer remaining w =
    Inr ((), w\<lparr>file_pos := file_pos w + remaining,
               sinks := (sinks w)[output := (fst (sinks w ! output),
                 snd (sinks w ! output) @ take remaining (drop (file_pos w) (file_data w)))]\<rparr>)"
  using assms
proof (induction remaining arbitrary: buffer w rule: less_induct)
  case (less remaining)
  show ?case
  proof (cases "remaining = 0")
    case True
    then show ?thesis
      by (subst export_bitmap_loop.simps) (simp add: list_update_same_conv less.prems)
  next
    case False
    define len where "len = min remaining 4096"
    define bytes where "bytes = take len (drop (file_pos w) (file_data w))"
    define buffer' where "buffer' = store buffer 0 bytes"
    define w1 where "w1 = w\<lparr>file_pos := file_pos w + len\<rparr>"
    define w2 where "w2 = w1\<lparr>sinks := (sinks w1)[output := (fst (sinks w1 ! output),
              snd (sinks w1 ! output) @ bytes)]\<rparr>"
    have len: "0 < len" "len \<le> remaining" "len \<le> 4096"
      using False by (simp_all add: len_def)
    have lb: "length bytes = len"
      using less.prems(1) len by (simp add: bytes_def)
    have rd: "istream_read ifstream_try_read () buffer len len w = Inr ((buffer', ()), w1)"
      using len less.prems(1) by (simp add: istream_read_file buffer'_def bytes_def w1_def)
    have tb: "take len buffer' = bytes"
      by (simp add: buffer'_def store_def lb)
    have wr: "ostream_write output buffer' len len w1 = Inr ((), w2)"
      using len by (simp add: ostream_write_eq w2_def tb)
    have lb': "length buffer' = 4096"
      using len by (simp add: buffer'_def store_def lb less.prems(3))
    have step: "export_bitmap_loop ifstream_try_read () output buffer remaining w =
        export_bitmap_loop ifstream_try_read () output buffer' (remaining - len) w2"
      using False by (subst export_bitmap_loop.simps) (simp add: Let_def len_def [symmetric] rd wr)
    have p2: "file_pos w2 + (remaining - len) \<le> length (file_data w2)"
      using less.prems(1) len by (simp add: w2_def w1_def)
    have o2: "output < length (sinks w2)"
      using less.prems(2) by (simp add: w2_def w1_def)
    have "remaining - len < remaining"
      using len False by simp
    from less.IH [OF this p2 o2 lb']
    have "export_bitmap_loop ifstream_try_read () output buffer' (remaining - len) w2 =
      Inr ((), w2\<lparr>file_pos := file_pos w2 + (remaining - len),
               sinks := (sinks w2)[output := (fst (sinks w2 ! output),
                 snd (sinks w2 ! output) @ take (remaining - len) (drop (file_pos w2) (file_data w2)))]\<rparr>)" .
    also have "\<dots> = Inr ((), w\<lparr>file_pos := file_pos w + remaining,
               sinks := (sinks w)[output := (fst (sinks w ! output),
                 snd (sinks w ! output) @ take remaining (drop (file_pos w) (file_data w)))]\<rparr>)"
      using len less.prems(2) take_take_drop [OF len(2), of "drop (file_pos w) (file_data w)"]
      by (simp add: w2_def w1_def bytes_def add.commute)
    finally show ?thesis using step by simp
  qed
qed

lemma export_bitmap_file:
  assumes "file_pos w + amount \<le> length (file_data w)"
    and "c_str filename \<noteq> []"
  shows "export_bitmap ifstream_try_read () filename amount w =
    Inr ((), w\<lparr>file_pos := file_pos w + amount,
               sinks := sinks w @ [(c_str filename,
                                    take amount (drop (file_pos w) (file_data w)))]\<rparr>)"
proof -
  define w' where "w' = w\<lparr>sinks := sinks w @ [(c_str filename, [])]\<rparr>"
  have "export_bitmap ifstream_try_read () filename amount w =
      export_bitmap_loop ifstream_try_read () (length (sinks w)) (replicate 4096 0) amount w'"
    using assms(2) by (simp add: export_bitmap_def ofstream_create_def w'_def)
  also have "\<dots> = Inr ((), w'\<lparr>file_pos := file_pos w' + amount,
               sinks := (sinks w')[length (sinks w) := (fst (sinks w' ! length (sinks w)),
                 snd (sinks w' ! length (sinks w))
                   @ take amount (drop (file_pos w') (file_data w')))]\<rparr>)"
    by (rule export_bitmap_loop_file) (simp_all add: w'_def assms)
  finally show ?thesis
    by (simp add: w'_def)
qed

lemma le_nat_bound: "le_nat bs < 256 ^ length bs"
proof (induction bs)
  case Nil
  show ?case by simp
next
  case (Cons b bs)
  have "unat b < 2 ^ LENGTH(8)"
    by (rule unsigned_less)
  then have "unat b < 256"
    by simp
  moreover from Cons have "256 * (le_nat bs + 1) \<le> 256 * 256 ^ length bs"
    by (intro mult_le_mono2) simp
  ultimately show ?case by simp
qed

lemma read_word_file:
  assumes "0 < n" and "file_pos w + n \<le> length (file_data w)"
  shows "read_word n w =
    Inr (word_of_nat (le_nat (take n (drop (file_pos w) (file_data w)))),
         w\<lparr>file_pos := file_pos w + n\<rparr>)"
  using assms by (simp add: read_word_def read_bytes_eq)

lemma unat_u32_le_nat:
  assumes "length bs = 4"
  shows "unat (word_of_nat (le_nat bs) :: 32 word) = le_nat bs"
proof -
  have "le_nat bs < 2 ^ 32"
    using le_nat_bound [of bs] assms by simp
  then show ?thesis
    by (simp add: unat_of_nat)
qed

lemma read_u8_file:
  assumes "file_pos w < length (file_data w)"
  shows "read_word 1 w = Inr (file_data w ! file_pos w, w\<lparr>file_pos := file_pos w + 1\<rparr>)"
proof -
  have "take 1 (drop (file_pos w) (file_data w)) = [file_data w ! file_pos w]"
    using assms by (simp add: take_Suc_conv_app_nth)
  with assms show ?thesis
    by (simp add: read_word_file)
qed

lemma take_4_drop:
  assumes "p + 4 \<le> length xs"
  shows "take 4 (drop p xs) = [xs ! p, xs ! (p + 1), xs ! (p + 2), xs ! (p + 3)]"
proof -
  have "take 4 (drop p xs) = take (Suc (Suc (Suc (Suc 0)))) (drop p xs)"
    by (simp add: eval_nat_numeral)
  also have "\<dots> = [xs ! p, xs ! (p + 1), xs ! (p + 2), xs ! (p + 3)]"
    using assms by (simp add: take_Suc_conv_app_nth eval_nat_numeral)
  finally show ?thesis .
qed

lemma le_nat_4:
  assumes "p + 4 \<le> length xs"
  shows "le_nat (take 4 (drop p xs)) =
    unat (xs ! p) + 256 * unat (xs ! (p + 1)) + 65536 * unat (xs ! (p + 2))
      + 16777216 * unat (xs ! (p + 3))"
  by (simp add: take_4_drop [OF assms])

lemma export_plain_bitmap_file:
  assumes "file_pos w + 4 \<le> length (file_data w)"
    and "n = le_nat (take 4 (drop (file_pos w) (file_data w)))"
    and "file_pos w + 4 + n \<le> length (file_data w)"
    and "derive_output_filename input_filename index = Inr output_filename"
    and "output_filename \<noteq> []"
  shows "export_plain_bitmap input_filename index w =
    Inr ((), w\<lparr>file_pos := file_pos w + 4 + n,
               sinks := sinks w @ [(output_filename,
                                    take n (drop (file_pos w + 4) (file_data w)))]\<rparr>)"
proof -
  let ?bs = "take 4 (drop (file_pos w) (file_data w))"
  have "length ?bs = 4"
    using assms(1) by simp
  then have u: "unat (word_of_nat (le_nat ?bs) :: 32 word) = n"
    using assms(2) by (simp add: unat_u32_le_nat)
  have c: "c_str output_filename = output_filename"
    using assms(4) by (rule derive_output_filename_c_str)
  have "export_bitmap ifstream_try_read () output_filename n (w\<lparr>file_pos := file_pos w + 4\<rparr>) =
    Inr ((), w\<lparr>file_pos := file_pos w + 4\<rparr>\<lparr>file_pos := file_pos w + 4 + n,
               sinks := sinks w @ [(output_filename,
                                    take n (drop (file_pos w + 4) (file_data w)))]\<rparr>)"
    using export_bitmap_file [of "w\<lparr>file_pos := file_pos w + 4\<rparr>" n output_filename]
      assms(3,5) c by simp
  then show ?thesis
    using assms(1)
    by (simp add: export_plain_bitmap_def read_word_file u assms(4))
qed

text \<open>
  When the derived name is empty (the name of the archive has no dot), the output
  file cannot be created and the entry is not exported.
\<close>

lemma export_plain_bitmap_no_name:
  assumes "file_pos w + 4 \<le> length (file_data w)"
    and "derive_output_filename input_filename index = Inr []"
  shows "export_plain_bitmap input_filename index w =
    Inl (system_error, w\<lparr>file_pos := file_pos w + 4\<rparr>)"
  using assms
  by (simp add: export_plain_bitmap_def read_word_file export_bitmap_def ofstream_create_def
      c_str_def)

text \<open>
  C7. For a plain entry (type byte 8 at the entry's offset \<open>off\<close>), the pass for the
  entry reads the 32-bit size \<open>n\<close> from the four bytes after the type byte, lowest byte
  first, and creates one sink, under the derived name, whose bytes are exactly the
  \<open>n\<close> bytes of the file that follow the size field. The hypotheses say that the file
  holds the entry (the type byte, the four bytes of the size and the \<open>n\<close> bytes of the
  payload) and that a name was derived for the sink, one that is not empty.
\<close>

theorem plain_entry_copied:
  assumes "off = unat offset"
    and "off + 5 \<le> length (file_data w)"
    and "file_data w ! off = 8"
    and "n = unat (file_data w ! (off + 1)) + 256 * unat (file_data w ! (off + 2))
           + 65536 * unat (file_data w ! (off + 3)) + 16777216 * unat (file_data w ! (off + 4))"
    and "off + 5 + n \<le> length (file_data w)"
    and "derive_output_filename input_filename i = Inr output_filename"
    and "output_filename \<noteq> []"
  shows "extract_entry storage input_filename i offset w =
    Inr ((), w\<lparr>file_pos := off + 5 + n,
               sinks := sinks w @ [(output_filename,
                                    take n (drop (off + 5) (file_data w)))]\<rparr>)"
proof -
  define w1 where "w1 = w\<lparr>file_pos := off\<rparr>"
  define w2 where "w2 = w\<lparr>file_pos := off + 1\<rparr>"
  have r1: "read_word 1 w1 = Inr (8 :: 8 word, w2)"
    using assms(2,3) read_u8_file [of w1] by (simp add: w1_def w2_def)
  have e: "off + 1 + 1 = off + 2" "off + 1 + 2 = off + 3" "off + 1 + 3 = off + 4"
    by simp_all
  have "off + 1 + 4 \<le> length (file_data w)"
    using assms(2) by simp
  then have "le_nat (take 4 (drop (off + 1) (file_data w))) = n"
    by (simp only: le_nat_4 e assms(4))
  then have n: "n = le_nat (take 4 (drop (file_pos w2) (file_data w2)))"
    by (simp add: w2_def)
  have r2: "export_plain_bitmap input_filename i w2 =
    Inr ((), w2\<lparr>file_pos := file_pos w2 + 4 + n,
               sinks := sinks w2 @ [(output_filename,
                                    take n (drop (file_pos w2 + 4) (file_data w2)))]\<rparr>)"
    by (rule export_plain_bitmap_file [OF _ n _ assms(6,7)])
      (use assms(2,5) in \<open>simp_all add: w2_def\<close>)
  have "extract_entry storage input_filename i offset w = export_plain_bitmap input_filename i w2"
    by (simp add: extract_entry_def seek_def assms(1) [symmetric] w1_def [symmetric]
        r1 [unfolded One_nat_def])
  then show ?thesis
    by (simp add: r2) (simp add: w2_def add.commute)
qed

lemma example_sized_bytes:
  "length example_sized = 16909082"
  "example_sized ! 17 = 8" "example_sized ! 18 = 4" "example_sized ! 19 = 3"
  "example_sized ! 20 = 2" "example_sized ! 21 = 1"
  "take 16909060 (drop 22 example_sized) = replicate 16909060 0x5A"
  by (simp_all add: example_sized_def nth_append)

lemma example_name: "derive_output_filename ''x.ris'' 0 = Inr ''x.0.bmp''"
  by (simp add: derive_output_filename_def c_str_def format_precision_s_def decimal.simps
      digits_def)

theorem plain_entry_copied_witness:
  "extract_entry (zero_storage 0) ''x.ris'' 0 17
     \<lparr>file_data = example_sized, file_pos = 17, sinks = [], console = [''x.ris'']\<rparr> =
   Inr ((), \<lparr>file_data = example_sized, file_pos = 16909082,
             sinks = [(''x.0.bmp'', replicate 16909060 0x5A)], console = [''x.ris'']\<rparr>)"
proof -
  let ?w = "\<lparr>file_data = example_sized, file_pos = 17, sinks = [], console = [''x.ris'']\<rparr>"
  have "extract_entry (zero_storage 0) ''x.ris'' 0 17 ?w =
    Inr ((), ?w\<lparr>file_pos := 17 + 5 + 16909060,
               sinks := sinks ?w @ [(''x.0.bmp'',
                                    take 16909060 (drop (17 + 5) (file_data ?w)))]\<rparr>)"
    by (rule plain_entry_copied [where off = 17 and n = 16909060, OF _ _ _ _ _ example_name])
      (simp_all add: example_sized_bytes)
  then show ?thesis
    by (simp add: example_sized_bytes)
qed

subsection \<open>An archive without the tag\<close>

text \<open>
  C8. For an archive whose version byte is 8 and whose next eight bytes are not the
  bytes of \<^verbatim>\<open>LMDBML30\<close>, the run returns without an error, creates no sink, prints
  the line \<^verbatim>\<open>Does not contain images\<close> after the file name, and leaves the file
  offset at 9: the directory was not read.
\<close>

theorem no_images_without_magic:
  assumes "9 \<le> length contents"
    and "contents ! 0 = 8"
    and "take 8 (drop 1 contents) \<noteq> [0x4C, 0x4D, 0x44, 0x42, 0x4D, 0x4C, 0x33, 0x30]"
  shows "extract_archive storage input_filename contents =
    Inr ((), \<lparr>file_data = contents, file_pos = 9, sinks = [],
              console = [c_str input_filename, ''Does not contain images'']\<rparr>)"
proof -
  let ?w0 = "\<lparr>file_data = contents, file_pos = 0, sinks = [],
              console = [c_str input_filename]\<rparr>"
  have r1: "read_word 1 ?w0 = Inr (8 :: 8 word, ?w0\<lparr>file_pos := 1\<rparr>)"
  proof -
    have "file_pos ?w0 < length (file_data ?w0)"
      using assms(1) by (cases contents) simp_all
    from read_u8_file [OF this] assms(2) show ?thesis
      by simp
  qed
  have r2: "read_bytes 8 (?w0\<lparr>file_pos := 1\<rparr>) =
      Inr (take 8 (drop 1 contents), ?w0\<lparr>file_pos := 9\<rparr>)"
    using assms(1) by (simp add: read_bytes_eq)
  show ?thesis
    using assms(3)
    by (simp add: extract_archive_def r1 [unfolded One_nat_def] r2 [simplified]
        is_bitmap_list_def)
qed

theorem no_images_without_magic_witness:
  "extract_archive zero_storage ''x.ris''
     [8, 0x4C, 0x4D, 0x44, 0x42, 0x4D, 0x4C, 0x33, 0x31, 1, 0, 0, 0, 17, 0, 0, 0,
      8, 4, 0, 0, 0, 0xDE, 0xAD, 0xBE, 0xEF] =
   Inr ((), \<lparr>file_data =
               [8, 0x4C, 0x4D, 0x44, 0x42, 0x4D, 0x4C, 0x33, 0x31, 1, 0, 0, 0, 17, 0, 0, 0,
                8, 4, 0, 0, 0, 0xDE, 0xAD, 0xBE, 0xEF],
             file_pos = 9, sinks = [],
             console = [''x.ris'', ''Does not contain images'']\<rparr>)"
  using no_images_without_magic [of
      "[8, 0x4C, 0x4D, 0x44, 0x42, 0x4D, 0x4C, 0x33, 0x31, 1, 0, 0, 0, 17, 0, 0, 0,
        8, 4, 0, 0, 0, 0xDE, 0xAD, 0xBE, 0xEF]" zero_storage "''x.ris''"]
  by (simp add: c_str_def)

subsection \<open>An entry of unknown type\<close>

lemma extract_entry_unknown:
  assumes "off = unat offset"
    and "off < length (file_data w)"
    and "k = file_data w ! off"
    and "k \<noteq> 8" and "k \<noteq> 9"
  shows "extract_entry storage input_filename i offset w =
    Inl (runtime_error (''unknown type: '' @ decimal (unat k)), w\<lparr>file_pos := off + 1\<rparr>)"
proof -
  define w1 where "w1 = w\<lparr>file_pos := off\<rparr>"
  have r1: "read_word 1 w1 = Inr (k, w\<lparr>file_pos := off + 1\<rparr>)"
    using assms(2,3) read_u8_file [of w1] by (simp add: w1_def)
  show ?thesis
    using assms(4,5)
    by (simp add: extract_entry_def seek_def assms(1) [symmetric] w1_def [symmetric]
        r1 [unfolded One_nat_def])
qed

lemma extract_loop_prefix:
  assumes "extract_loop storage input_filename offsets i j w = Inr ((), w')"
    and "j \<le> i" and "i \<le> count"
  shows "extract_loop storage input_filename offsets count j w =
    extract_loop storage input_filename offsets count i w'"
  using assms
proof (induction "i - j" arbitrary: j w)
  case 0
  then have "j = i" by simp
  with "0.prems"(1) show ?case
    by (simp add: extract_loop.simps [of _ _ _ i i])
next
  case (Suc d)
  then have lt: "j < i" "j < count" by simp_all
  show ?case
  proof (cases "extract_entry (storage j) input_filename j (offsets ! j) w")
    case (Inl e)
    with Suc.prems(1) lt show ?thesis
      by (simp add: extract_loop.simps [of _ _ _ i j])
  next
    case (Inr r)
    obtain u w3 where r: "r = (u, w3)" by (cases r) auto
    have "extract_loop storage input_filename offsets i (j + 1) w3 = Inr ((), w')"
      using Suc.prems(1) lt Inr r by (simp add: extract_loop.simps [of _ _ _ i j])
    moreover have "d = i - (j + 1)" "j + 1 \<le> i"
      using Suc.hyps(2) by simp_all
    ultimately have "extract_loop storage input_filename offsets count (j + 1) w3 =
        extract_loop storage input_filename offsets count i w'"
      using Suc.hyps(1) Suc.prems(3) by blast
    then show ?thesis
      using lt Inr r by (simp add: extract_loop.simps [of _ _ _ count j])
  qed
qed

text \<open>
  C9, as amended. When the entries before entry \<open>i\<close> were exported, leaving the
  world \<open>w\<close>, and the type byte \<open>k\<close> of entry \<open>i\<close> is neither 8 nor 9, the loop over
  the whole directory throws a runtime error whose message is \<^verbatim>\<open>unknown type: \<close>
  followed by \<open>k\<close> in decimal. The world of the throw is \<open>w\<close> with the file offset
  just past the type byte: its sinks are those of the entries before \<open>i\<close>, and no
  later entry was touched. The message carries the type value and nothing that names
  the entry.
\<close>

theorem unknown_type_aborts:
  assumes "i < count"
    and "extract_loop storage input_filename offsets i 0 w0 = Inr ((), w)"
    and "off = unat (offsets ! i)"
    and "off < length (file_data w)"
    and "k = file_data w ! off"
    and "k \<noteq> 8" and "k \<noteq> 9"
  shows "extract_loop storage input_filename offsets count 0 w0 =
    Inl (runtime_error (''unknown type: '' @ decimal (unat k)), w\<lparr>file_pos := off + 1\<rparr>)"
proof -
  have "extract_loop storage input_filename offsets count 0 w0 =
      extract_loop storage input_filename offsets count i w"
    using assms(1) by (intro extract_loop_prefix [OF assms(2)]) simp_all
  also have "\<dots> = Inl (runtime_error (''unknown type: '' @ decimal (unat k)),
                        w\<lparr>file_pos := off + 1\<rparr>)"
    using assms(1) extract_entry_unknown [OF assms(3-7)]
    by (simp add: extract_loop.simps [of _ _ _ count i])
  finally show ?thesis .
qed

lemma example_three_first_entry:
  "extract_loop zero_storage ''x.ris'' [25, 31, 32] 1 0
     \<lparr>file_data = example_three, file_pos = 25, sinks = [], console = [''x.ris'']\<rparr> =
   Inr ((), \<lparr>file_data = example_three, file_pos = 31,
             sinks = [(''x.0.bmp'', [0x77])], console = [''x.ris'']\<rparr>)"
  by code_simp

theorem unknown_type_aborts_witness:
  "extract_loop zero_storage ''x.ris'' [25, 31, 32] 3 0
     \<lparr>file_data = example_three, file_pos = 25, sinks = [], console = [''x.ris'']\<rparr> =
   Inl (runtime_error ''unknown type: 255'',
        \<lparr>file_data = example_three, file_pos = 32,
           sinks = [(''x.0.bmp'', [0x77])], console = [''x.ris'']\<rparr>)"
proof -
  have "extract_loop zero_storage ''x.ris'' [25, 31, 32] 3 0
      \<lparr>file_data = example_three, file_pos = 25, sinks = [], console = [''x.ris'']\<rparr> =
    Inl (runtime_error (''unknown type: '' @ decimal (unat (255 :: byte))),
         \<lparr>file_data = example_three, file_pos = 31,
            sinks = [(''x.0.bmp'', [0x77])], console = [''x.ris'']\<rparr>\<lparr>file_pos := 31 + 1\<rparr>)"
    by (rule unknown_type_aborts [where i = 1, OF _ example_three_first_entry])
      (simp_all add: example_three_def)
  then show ?thesis
    by (simp add: decimal.simps digits_def)
qed

text \<open>
  C9, as stated, fails: the error does not refer to the failing entry. An archive
  failing at entry 0 (offset 17) and an archive failing at entry 1 (offset 31) throw
  the same error, \<^verbatim>\<open>unknown type: 255\<close>.
\<close>

theorem unknown_type_error_names_no_entry:
  "extract_archive zero_storage ''x.ris'' example_unknown =
     Inl (runtime_error ''unknown type: 255'',
          \<lparr>file_data = example_unknown, file_pos = 18, sinks = [], console = [''x.ris'']\<rparr>)
   \<and> extract_archive zero_storage ''x.ris'' example_three =
     Inl (runtime_error ''unknown type: 255'',
          \<lparr>file_data = example_three, file_pos = 32,
             sinks = [(''x.0.bmp'', [0x77])], console = [''x.ris'']\<rparr>)"
  by code_simp

subsection \<open>The end-to-end scenarios of the specification\<close>

text \<open>The plain entry arrives in the sink \<^verbatim>\<open>x.0.bmp\<close>, byte for byte.\<close>

lemma example_plain_extracted:
  "extract_archive zero_storage ''x.ris'' example_plain =
   Inr ((), \<lparr>file_data = example_plain, file_pos = 26,
             sinks = [(''x.0.bmp'', [0xDE, 0xAD, 0xBE, 0xEF])], console = [''x.ris'']\<rparr>)"
  by (simp add: extract_archive_def example_plain_def read_word_def read_bytes_eq
      is_bitmap_list_def read_offsets.simps extract_loop.simps extract_entry_def seek_def
      export_plain_bitmap_def export_bitmap_def ofstream_create_def export_bitmap_loop.simps
      istream_read_file ostream_write_eq store_def derive_output_filename_def c_str_def
      format_precision_s_def decimal.simps digits_def)

text \<open>
  The same archive under a name without a dot: no name is derived, the sink cannot be
  created, and the run stops with the error of \<^verbatim>\<open>::open\<close>.
\<close>

lemma example_plain_dotless_throws:
  "extract_archive zero_storage ''xris'' example_plain =
   Inl (system_error, \<lparr>file_data = example_plain, file_pos = 22,
             sinks = [], console = [''xris'']\<rparr>)"
  by code_simp

text \<open>
  The compressed entry does not: the decoder takes the descriptor for two literals,
  runs into the end of the file and throws, leaving an empty \<^verbatim>\<open>x.0.bmp\<close>.
\<close>

lemma example_compressed_throws:
  "extract_archive zero_storage ''x.ris'' example_compressed =
   Inl (end_of_stream, \<lparr>file_data = example_compressed, file_pos = 32,
             sinks = [(''x.0.bmp'', [])], console = [''x.ris'']\<rparr>)"
  by (simp add: extract_archive_def example_compressed_def read_word_def read_bytes_eq
      is_bitmap_list_def read_offsets.simps extract_loop.simps extract_entry_def seek_def
      export_compressed_bitmap_def export_bitmap_def ofstream_create_def export_bitmap_loop.simps
      istream_read.simps ilzrw_try_read_def ilzrw_try_read_loop.simps ilzrw_token_def
      ilzrwstream_wrap_def zero_storage_def
      derive_output_filename_def c_str_def format_precision_s_def decimal.simps digits_def)

end
